theory Spec2Isabelle
  imports Main "HOL-Library.Word" "HOL-Library.Sublist"
begin

section \<open>JavaScript strings and numbers\<close>

text \<open>
  A JavaScript string is a sequence of 16-bit code units; \<open>charCodeAt\<close> reads one of
  them as a number. String literals of the source are written \<open>js ''...''\<close>, a single
  character \<open>ch CHR ''x''\<close>. The numbers the source computes with (string lengths, sums
  of character codes, the \<open>initState\<close> counter) are non-negative integers far below
  \<open>2 ^ 53\<close>, where the arithmetic of JavaScript numbers is exact, so they are \<open>nat\<close>.
\<close>

type_synonym codeunit = "16 word"
type_synonym jsstring = "codeunit list"

definition ch :: "char \<Rightarrow> codeunit" where
  "ch c = of_char c"

definition js :: "string \<Rightarrow> jsstring" where
  "js s = map of_char s"

text \<open>
  \<open>Number.prototype.toString(radix)\<close> on a non-negative integer, for the radices 16
  and 10 the source uses: the digits \<open>0123456789abcdef\<close>, most significant first, no
  leading zero.
\<close>

definition digitChar :: "nat \<Rightarrow> codeunit" where
  "digitChar d = (if d < 10 then of_nat (48 + d) else of_nat (87 + d))"

fun toString16 :: "nat \<Rightarrow> jsstring" where
  "toString16 n = (if n < 16 then [digitChar n] else toString16 (n div 16) @ [digitChar (n mod 16)])"

declare toString16.simps [simp del]

fun toString10 :: "nat \<Rightarrow> jsstring" where
  "toString10 n = (if n < 10 then [digitChar n] else toString10 (n div 10) @ [digitChar (n mod 10)])"

declare toString10.simps [simp del]

text \<open>
  \<open>String.prototype.toUpperCase\<close>, on the strings the source applies it to: the output
  of \<open>toString(16)\<close>, whose code units are ASCII digits and the letters \<open>a\<close> to \<open>f\<close>.
  ASCII lower-case letters move to upper case, every other ASCII code unit stays.
\<close>

definition toUpperCase :: "jsstring \<Rightarrow> jsstring" where
  "toUpperCase s = map (\<lambda>c. if 97 \<le> unat c \<and> unat c \<le> 122 then c - 32 else c) s"

text \<open>\<open>data[i]\<close>: the code unit at index \<open>i\<close>, \<open>undefined\<close> (here \<open>None\<close>) out of range.\<close>

definition charAt :: "jsstring \<Rightarrow> nat \<Rightarrow> codeunit option" where
  "charAt s i = (if i < length s then Some (s ! i) else None)"

text \<open>\<open>s.substring(a, b)\<close> for \<open>a \<le> b\<close>, both clamped to the length of \<open>s\<close>.\<close>

definition substring :: "jsstring \<Rightarrow> nat \<Rightarrow> nat \<Rightarrow> jsstring" where
  "substring s a b = drop a (take b s)"

section \<open>Framing and path encoding (runApp.ts, encodePath and makeGdbCommand)\<close>

text \<open>
  \<open>encodePath\<close> is \<open>packagePath.replace(/./g, f)\<close> with
  \<open>f char = char.charCodeAt(0).toString(16).toUpperCase()\<close>. The regular expression
  \<open>/./g\<close> has no \<open>s\<close> and no \<open>u\<close> flag: it matches every single code unit but the four
  line terminators (LF, CR, U+2028, U+2029), and \<open>replace\<close> copies what it does not
  match.
\<close>

definition isLineTerminator :: "codeunit \<Rightarrow> bool" where
  "isLineTerminator c \<longleftrightarrow> c = 0x0A \<or> c = 0x0D \<or> c = 0x2028 \<or> c = 0x2029"

definition encodePath :: "jsstring \<Rightarrow> jsstring" where
  "encodePath packagePath =
     concat (map (\<lambda>c. if isLineTerminator c then [c] else toUpperCase (toString16 (unat c))) packagePath)"

text \<open>
  \<open>makeGdbCommand\<close>: the \<open>for\<close> loop adds the character codes from left to right
  (a left fold), then the sum is reduced modulo 256, written in hexadecimal, put in upper
  case and padded with one \<open>0\<close> when it is a single digit.
\<close>

definition makeGdbCommand :: "jsstring \<Rightarrow> jsstring" where
  "makeGdbCommand command =
    (let stringSum = foldl (\<lambda>s c. s + unat c) 0 command;
         stringSum = stringSum mod 256;
         checksum = toUpperCase (toString16 stringSum);
         checksum = (if length checksum < 2 then js ''0'' @ checksum else checksum)
     in js ''$'' @ command @ js ''#'' @ checksum)"

subsection \<open>The specification's wording of both functions\<close>

text \<open>
  The checksum as the specification words it: the sum of the character codes modulo 256
  as exactly two upper-case hexadecimal digits.
\<close>

definition upperHexDigit :: "nat \<Rightarrow> codeunit" where
  "upperHexDigit d = of_char (''0123456789ABCDEF'' ! d)"

definition checksum2 :: "jsstring \<Rightarrow> jsstring" where
  "checksum2 c =
     (let s = sum_list (map unat c) mod 256 in [upperHexDigit (s div 16), upperHexDigit (s mod 16)])"

text \<open>
  The path encoding as the specification words it: every character replaced by the
  upper-case hexadecimal form of its character code, nothing in between.
\<close>

definition hexEncode :: "jsstring \<Rightarrow> jsstring" where
  "hexEncode s = concat (map (\<lambda>c. toUpperCase (toString16 (unat c))) s)"

section \<open>Promises (the Q library's deferred objects)\<close>

text \<open>
  The source rejects a promise either with a plain string (\<open>"UnableToLaunchApp"\<close>,
  \<open>"DeviceLaunchTimeout"\<close>) or with an \<open>Error\<close> object, which is identified here by its
  message. The first is the failure kind the specification calls \<open>LaunchFailed\<close>, the
  second the one it calls \<open>LaunchTimeout\<close>.
\<close>

datatype reason = Str string | ErrorObj string

text \<open>
  A deferred of the Q library is pending, fulfilled with a value or rejected with a
  reason. \<open>deferred.resolve(v)\<close> with a value that is not itself a promise fulfils a
  pending deferred, \<open>deferred.reject(r)\<close> rejects it, and both leave a settled deferred
  as it is.
\<close>

datatype 'a deferred = Pending | Fulfilled 'a | Rejected reason

definition resolve :: "'a \<Rightarrow> 'a deferred \<Rightarrow> 'a deferred" where
  "resolve v d = (case d of Pending \<Rightarrow> Fulfilled v | _ \<Rightarrow> d)"

definition reject :: "reason \<Rightarrow> 'a deferred \<Rightarrow> 'a deferred" where
  "reject r d = (case d of Pending \<Rightarrow> Rejected r | _ \<Rightarrow> d)"

section \<open>The handshake (runApp.ts, startAppViaDebugger)\<close>

text \<open>
  One call of \<open>startAppViaDebugger\<close> owns one socket, the counter \<open>initState\<close> and the
  three deferreds. The record holds them together with what the calls on the socket and
  on the event loop leave behind: the data passed to \<open>socket.write\<close> in order, whether
  \<open>socket.end()\<close> was called, whether the \<open>connect\<close> callback has run, which of the three
  timers are set, and how many of the two \<open>then\<close> callbacks of the returned chain have
  run. The variables \<open>endStatus\<close> and \<open>endSignal\<close> are assigned and never read, and are
  left out. The deferreds are fulfilled with the socket itself.
\<close>

datatype sockref = TheSocket

record session =
  encodedPath :: jsstring
  initState :: nat
  deferred1 :: "sockref deferred"
  deferred2 :: "sockref deferred"
  deferred3 :: "sockref deferred"
  written :: "jsstring list"
  ended :: bool
  connected :: bool
  timer1 :: bool
  timer2 :: bool
  timer3 :: bool
  chain :: nat

definition socket_write :: "jsstring \<Rightarrow> session \<Rightarrow> session" where
  "socket_write d s = s\<lparr>written := written s @ [d]\<rparr>"

definition socket_end :: "session \<Rightarrow> session" where
  "socket_end s = s\<lparr>ended := True\<rparr>"

text \<open>The three \<open>reject\<close> calls that the \<open>E\<close> branch, the \<open>end\<close> handler and the \<open>error\<close> handler share.\<close>

definition rejectAll :: "reason \<Rightarrow> session \<Rightarrow> session" where
  "rejectAll r s = s\<lparr>deferred1 := reject r (deferred1 s),
                      deferred2 := reject r (deferred2 s),
                      deferred3 := reject r (deferred3 s)\<rparr>"

text \<open>\<open>while (data[0] === "+") { data = data.substring(1); }\<close>\<close>

fun stripAcks :: "jsstring \<Rightarrow> jsstring" where
  "stripAcks [] = []"
| "stripAcks (c # cs) = (if c = ch CHR ''+'' then stripAcks cs else c # cs)"

text \<open>The \<open>data\<close> handler of the socket, branch by branch in the order of the source.\<close>

definition onData :: "jsstring \<Rightarrow> session \<Rightarrow> session" where
  "onData raw s0 =
    (let data = stripAcks raw in
     if charAt data 0 = Some (ch CHR ''$'') then
       (let s = socket_write (js ''+'') s0 in
        if charAt data 1 = Some (ch CHR ''W'') then socket_end s
        else if charAt data 1 = Some (ch CHR ''X'') then socket_end s
        else if charAt data 1 = Some (ch CHR ''T'') then socket_end s
        else if substring data 1 3 = js ''OK'' then
          (if initState s = 1 then s\<lparr>deferred1 := resolve TheSocket (deferred1 s)\<rparr>
           else if initState s = 2 then s\<lparr>deferred2 := resolve TheSocket (deferred2 s)\<rparr>
           else s)
        else if charAt data 1 = Some (ch CHR ''O'') then
          (if initState s = 3
           then s\<lparr>deferred3 := resolve TheSocket (deferred3 s), initState := initState s + 1\<rparr>
           else s)
        else if charAt data 1 = Some (ch CHR ''E'') then rejectAll (Str ''UnableToLaunchApp'') s
        else s)
     else s0)"

definition onEnd :: "session \<Rightarrow> session" where
  "onEnd s = rejectAll (Str ''UnableToLaunchApp'') s"

definition onError :: "string \<Rightarrow> session \<Rightarrow> session" where
  "onError err s = rejectAll (ErrorObj err) s"

text \<open>The first command: \<open>"A" + encodedPath.length + ",0," + encodedPath\<close>, framed.\<close>

definition launchCommand :: "jsstring \<Rightarrow> jsstring" where
  "launchCommand enc = makeGdbCommand (js ''A'' @ toString10 (length enc) @ js '',0,'' @ enc)"

text \<open>The callback of \<open>socket.connect\<close> and the two \<open>then\<close> callbacks of the returned chain.\<close>

definition onConnect :: "session \<Rightarrow> session" where
  "onConnect s =
    (let cmd = launchCommand (encodedPath s);
         s = s\<lparr>initState := initState s + 1\<rparr>;
         s = socket_write cmd s
     in s\<lparr>timer1 := True\<rparr>)"

definition then1 :: "session \<Rightarrow> session" where
  "then1 s =
    (let cmd = makeGdbCommand (js ''Hc0'');
         s = s\<lparr>initState := initState s + 1\<rparr>;
         s = socket_write cmd s
     in s\<lparr>timer2 := True\<rparr>)"

definition then2 :: "session \<Rightarrow> session" where
  "then2 s =
    (let cmd = makeGdbCommand (js ''c'');
         s = s\<lparr>initState := initState s + 1\<rparr>;
         s = socket_write cmd s
     in s\<lparr>timer3 := True\<rparr>)"

text \<open>
  What the event loop can deliver to a session: the connection is established, a chunk
  of data arrives, the peer ends the stream, the socket reports an error, one of the three
  timers fires, or Q runs one of the two \<open>then\<close> callbacks. The event loop runs one
  callback at a time, so a run of the session is a list of events. The conditions in
  \<open>fire\<close> are those of the event loop and of Q, not of the source: the \<open>connect\<close>
  callback runs once, a timer fires once and only after \<open>setTimeout\<close> has set it, the
  first \<open>then\<close> callback runs once and only when \<open>deferred1\<close> is fulfilled, the second once
  and only when the first has run and \<open>deferred2\<close>, the promise it returned, is fulfilled.
  An event that cannot happen in a state leaves it unchanged. No order between a \<open>then\<close>
  callback and the other events is assumed.
\<close>

datatype event = Connect | Data jsstring | End | Error string
  | Timeout1 | Timeout2 | Timeout3 | Then1 | Then2

fun fire :: "session \<Rightarrow> event \<Rightarrow> session" where
  "fire s Connect = (if connected s then s else onConnect (s\<lparr>connected := True\<rparr>))"
| "fire s (Data d) = onData d s"
| "fire s End = onEnd s"
| "fire s (Error err) = onError err s"
| "fire s Timeout1 =
     (if timer1 s then s\<lparr>timer1 := False, deferred1 := reject (Str ''DeviceLaunchTimeout'') (deferred1 s)\<rparr> else s)"
| "fire s Timeout2 =
     (if timer2 s then s\<lparr>timer2 := False, deferred2 := reject (Str ''DeviceLaunchTimeout'') (deferred2 s)\<rparr> else s)"
| "fire s Timeout3 =
     (if timer3 s then s\<lparr>timer3 := False, deferred3 := reject (Str ''DeviceLaunchTimeout'') (deferred3 s)\<rparr> else s)"
| "fire s Then1 =
     (if chain s = 0 \<and> deferred1 s = Fulfilled TheSocket then then1 (s\<lparr>chain := 1\<rparr>) else s)"
| "fire s Then2 =
     (if chain s = 1 \<and> deferred2 s = Fulfilled TheSocket then then2 (s\<lparr>chain := 2\<rparr>) else s)"

definition run :: "session \<Rightarrow> event list \<Rightarrow> session" where
  "run s es = foldl fire s es"

text \<open>The session as the call of \<open>startAppViaDebugger\<close> leaves it, before any event.\<close>

definition startAppViaDebugger :: "jsstring \<Rightarrow> session" where
  "startAppViaDebugger packagePath =
    \<lparr>encodedPath = encodePath packagePath, initState = 0,
     deferred1 = Pending, deferred2 = Pending, deferred3 = Pending,
     written = [], ended = False, connected = False,
     timer1 = False, timer2 = False, timer3 = False, chain = 0\<rparr>"

text \<open>
  The promise the call returns, \<open>deferred1.promise.then(...).then(...)\<close>: a rejection of
  the deferred the chain is waiting for passes through, and once both callbacks have run
  the chain follows \<open>deferred3\<close>.
\<close>

definition returned :: "session \<Rightarrow> sockref deferred" where
  "returned s =
    (if chain s = 0 then (case deferred1 s of Rejected r \<Rightarrow> Rejected r | _ \<Rightarrow> Pending)
     else if chain s = 1 then (case deferred2 s of Rejected r \<Rightarrow> Rejected r | _ \<Rightarrow> Pending)
     else deferred3 s)"

subsection \<open>Views of a session used to state its properties\<close>

text \<open>
  What the peer sends as one chunk: a complete frame carrying \<open>payload\<close>, after \<open>n\<close>
  acknowledgement characters. The repository's tests send \<open>+\<close> and \<open>$OK#9A\<close>, that is
  \<open>frameData 1 (js ''OK'')\<close> when both arrive together.
\<close>

definition frameData :: "nat \<Rightarrow> jsstring \<Rightarrow> jsstring" where
  "frameData n payload = replicate n (ch CHR ''+'') @ makeGdbCommand payload"

text \<open>
  The payload of an \<open>O\<close> frame after the \<open>O\<close> is the output of the process, hex-encoded
  (the comment in the \<open>O\<close> branch of the handler).
\<close>

definition isHexDigit :: "codeunit \<Rightarrow> bool" where
  "isHexDigit c \<longleftrightarrow> c \<in> set (js ''0123456789abcdefABCDEF'')"

text \<open>
  The handshake states of the specification, read off \<open>initState\<close>: 3 after the third
  command has been written, 4 after the first \<open>O\<close> frame that follows.
\<close>

definition AwaitingContinueAck :: "session \<Rightarrow> bool" where
  "AwaitingContinueAck s \<longleftrightarrow> initState s = 3"

definition Monitoring :: "session \<Rightarrow> bool" where
  "Monitoring s \<longleftrightarrow> initState s = 4"

text \<open>
  The commands written so far (everything written but the acknowledgements), the three
  commands of the handshake in their order, the number of callbacks that write one and
  have run, and the expectations that belong to a step.
\<close>

definition commands :: "session \<Rightarrow> jsstring list" where
  "commands s = filter (\<lambda>w. w \<noteq> js ''+'') (written s)"

definition handshake :: "jsstring \<Rightarrow> jsstring list" where
  "handshake enc = [launchCommand enc, makeGdbCommand (js ''Hc0''), makeGdbCommand (js ''c'')]"

definition sent :: "session \<Rightarrow> nat" where
  "sent s = (if connected s then 1 else 0) + chain s"

definition expectations :: "session \<Rightarrow> nat \<Rightarrow> sockref deferred list" where
  "expectations s n =
     (if n = 1 then [deferred1 s] else if n = 2 then [deferred2 s] else if n = 3 then [deferred3 s] else [])"

text \<open>The invariant of the handshake that every run from \<open>startAppViaDebugger\<close> keeps.\<close>

definition inv :: "jsstring \<Rightarrow> session \<Rightarrow> bool" where
  "inv enc s \<longleftrightarrow>
     encodedPath s = enc \<and> chain s \<le> 2 \<and>
     (initState s = sent s \<or> (initState s = 4 \<and> sent s = 3)) \<and>
     (1 \<le> chain s \<longrightarrow> deferred1 s = Fulfilled TheSocket) \<and>
     (chain s = 2 \<longrightarrow> deferred2 s = Fulfilled TheSocket) \<and>
     (deferred1 s = Fulfilled TheSocket \<longrightarrow> connected s) \<and>
     commands s = take (sent s) (handshake enc)"

section \<open>Mounting the developer image (runApp.ts, mountDeveloperImage)\<close>

text \<open>
  \<open>String.prototype.indexOf\<close>: the index of the first occurrence of \<open>pat\<close>, \<open>-1\<close> when
  there is none.
\<close>

fun indexOfFrom :: "jsstring \<Rightarrow> jsstring \<Rightarrow> nat \<Rightarrow> int" where
  "indexOfFrom [] pat i = (if pat = [] then int i else - 1)"
| "indexOfFrom (x # xs) pat i = (if prefix pat (x # xs) then int i else indexOfFrom xs pat (i + 1))"

definition indexOf :: "jsstring \<Rightarrow> jsstring \<Rightarrow> int" where
  "indexOf s pat = indexOfFrom s pat 0"

text \<open>
  The callback that runs once the disk image is found spawns \<open>ideviceimagemounter\<close> and
  creates the local variables \<open>stdout\<close> and \<open>deferred\<close>; \<open>mountDeveloperImage\<close> is their
  state at that point. The handlers of the child process follow: \<open>data\<close> on its standard
  output, \<open>close\<close> with the exit code (\<open>null\<close>, here \<open>None\<close>, when a signal ended the
  process) and \<open>error\<close>. In the \<open>close\<close> handler the last \<open>reject\<close> is reached on every
  path with a nonzero code.
\<close>

record mount =
  stdout :: jsstring
  mount_deferred :: "unit deferred"

definition mountDeveloperImage :: mount where
  "mountDeveloperImage = \<lparr>stdout = [], mount_deferred = Pending\<rparr>"

definition onStdoutData :: "jsstring \<Rightarrow> mount \<Rightarrow> mount" where
  "onStdoutData data m = m\<lparr>stdout := stdout m @ data\<rparr>"

definition onClose :: "int option \<Rightarrow> mount \<Rightarrow> mount" where
  "onClose code m =
    (if code \<noteq> Some 0 then
       (let m = (if indexOf (stdout m) (js ''Error:'') \<noteq> - 1
                 then m\<lparr>mount_deferred := resolve () (mount_deferred m)\<rparr>
                 else if indexOf (stdout m) (js ''No device found, is it plugged in?'') \<noteq> - 1
                 then m\<lparr>mount_deferred := reject (ErrorObj ''NoDeviceAttached'') (mount_deferred m)\<rparr>
                 else m)
        in m\<lparr>mount_deferred := reject (ErrorObj ''ErrorMountingDiskImage'') (mount_deferred m)\<rparr>)
     else m\<lparr>mount_deferred := resolve () (mount_deferred m)\<rparr>)"

definition onMounterError :: "string \<Rightarrow> mount \<Rightarrow> mount" where
  "onMounterError err m = m\<lparr>mount_deferred := reject (ErrorObj err) (mount_deferred m)\<rparr>"

section \<open>Starting the proxy (runApp.ts, startDebugProxy, and sharedState.ts)\<close>

text \<open>
  A child process is identified by a number. \<open>global.tacoRemoteLib\<close> is absent (\<open>None\<close>)
  or an object whose field \<open>nativeDebuggerProxyInstance\<close> is a process or \<open>null\<close>. The
  record holds it with what one call of \<open>startDebugProxy\<close> adds: the deferred of the call,
  whether the \<open>once("error")\<close> listener and the \<open>Q.delay(200)\<close> callback are still to run,
  and the processes that were sent \<open>SIGHUP\<close>. The 200 milliseconds are not modelled: an
  error within the delay is an error event before the delay's callback.
\<close>

type_synonym handle = nat

record proxy =
  tacoRemoteLib :: "handle option option"
  proxy_deferred :: "handle option deferred"
  errorListener :: bool
  delayPending :: bool
  killed :: "handle list"

text \<open>The getter and the setter of \<open>SharedState\<close>.\<close>

definition nativeDebuggerProxyInstance :: "proxy \<Rightarrow> handle option" where
  "nativeDebuggerProxyInstance g = (case tacoRemoteLib g of Some i \<Rightarrow> i | None \<Rightarrow> None)"

definition set_nativeDebuggerProxyInstance :: "handle option \<Rightarrow> proxy \<Rightarrow> proxy" where
  "set_nativeDebuggerProxyInstance inst g =
     (case tacoRemoteLib g of Some _ \<Rightarrow> g\<lparr>tacoRemoteLib := Some inst\<rparr>
      | None \<Rightarrow> g\<lparr>tacoRemoteLib := Some inst\<rparr>)"

text \<open>
  The first statement of \<open>startDebugProxy\<close>, then the callback that runs when the image
  is mounted (\<open>h\<close> is the process \<open>child_process.spawn\<close> returns), and the two callbacks
  it registers. \<open>startDebugProxy h g\<close> is the state once the callback has run; when
  mounting fails the callback does not run and the call fails with the mounting error.
\<close>

definition killPrevious :: "proxy \<Rightarrow> proxy" where
  "killPrevious g =
     (case nativeDebuggerProxyInstance g of
        Some h \<Rightarrow> set_nativeDebuggerProxyInstance None (g\<lparr>killed := killed g @ [h]\<rparr>)
      | None \<Rightarrow> g)"

definition spawnProxy :: "handle \<Rightarrow> proxy \<Rightarrow> proxy" where
  "spawnProxy h g =
     (set_nativeDebuggerProxyInstance (Some h) g)
       \<lparr>proxy_deferred := Pending, errorListener := True, delayPending := True\<rparr>"

definition startDebugProxy :: "handle \<Rightarrow> proxy \<Rightarrow> proxy" where
  "startDebugProxy h g = spawnProxy h (killPrevious g)"

definition onProxyError :: "string \<Rightarrow> proxy \<Rightarrow> proxy" where
  "onProxyError err g =
     (if errorListener g
      then g\<lparr>errorListener := False, proxy_deferred := reject (ErrorObj err) (proxy_deferred g)\<rparr>
      else g)"

definition onDelay :: "proxy \<Rightarrow> proxy" where
  "onDelay g =
     (if delayPending g
      then g\<lparr>delayPending := False,
             proxy_deferred := resolve (nativeDebuggerProxyInstance g) (proxy_deferred g)\<rparr>
      else g)"

section \<open>Properties of the framing functions\<close>

lemma unat_ch: "unat (ch c) = of_char c"
proof -
  have "(of_char c :: nat) mod 256 = of_char c" by (rule of_char_mod_256)
  then have lt: "(of_char c :: nat) < 256"
    by (metis mod_less_divisor zero_less_numeral)
  have "ch c = of_nat (of_char c)" by (simp add: ch_def of_nat_of_char)
  then have "unat (ch c) = (of_char c :: nat) mod 2 ^ 16" by (simp add: unat_of_nat)
  moreover from lt have "(of_char c :: nat) < 65536" by arith
  ultimately show ?thesis by simp
qed

lemma ch_inj [simp]: "ch a = ch b \<longleftrightarrow> a = b"
proof
  assume "ch a = ch b"
  then have "(of_char a :: nat) = of_char b" by (metis unat_ch)
  then show "a = b" by simp
qed simp

lemma js_Nil [simp]: "js [] = []"
  by (simp add: js_def)

lemma js_Cons [simp]: "js (c # cs) = ch c # js cs"
  by (simp add: js_def ch_def)

lemma foldl_unat_sum: "foldl (\<lambda>s c. s + unat c) a xs = a + sum_list (map unat xs)"
  by (induction xs arbitrary: a) simp_all

lemma below16_cases:
  "d < 16 \<Longrightarrow> d \<in> {0, 1, 2, 3, 4, 5, 6, 7, 8, 9, 10, 11, 12, 13, 14, 15::nat}"
  by simp arith

lemma upper_digit: "d < 16 \<Longrightarrow> toUpperCase [digitChar d] = [upperHexDigit d]"
  by (drule below16_cases) (auto simp: toUpperCase_def digitChar_def upperHexDigit_def)

lemma hex_small: "n < 16 \<Longrightarrow> toUpperCase (toString16 n) = [upperHexDigit n]"
  by (simp add: toString16.simps upper_digit)

lemma hex_byte:
  assumes "16 \<le> n" "n < 256"
  shows "toUpperCase (toString16 n) = [upperHexDigit (n div 16), upperHexDigit (n mod 16)]"
proof -
  from assms have d: "n div 16 < 16" by simp
  have "toString16 n = toString16 (n div 16) @ [digitChar (n mod 16)]"
    using assms by (subst toString16.simps) simp
  also have "toString16 (n div 16) = [digitChar (n div 16)]"
    using d by (subst toString16.simps) simp
  finally show ?thesis
    using d upper_digit [of "n div 16"] upper_digit [of "n mod 16"]
    by (simp add: toUpperCase_def)
qed

text \<open>The padding step: below 256 the checksum string has exactly the two digits.\<close>

lemma padded_checksum:
  assumes "s < 256"
  shows "(if length (toUpperCase (toString16 s)) < 2
          then js ''0'' @ toUpperCase (toString16 s) else toUpperCase (toString16 s))
         = [upperHexDigit (s div 16), upperHexDigit (s mod 16)]"
proof (cases "s < 16")
  case True
  then have "s div 16 = 0" "s mod 16 = s" by simp_all
  moreover have "js ''0'' = [upperHexDigit 0]" by (simp add: js_def upperHexDigit_def)
  ultimately show ?thesis using True by (simp add: hex_small)
next
  case False
  with assms show ?thesis by (simp add: hex_byte)
qed

lemma makeGdbCommand_Cons:
  "makeGdbCommand p = ch CHR ''$'' # p @ ch CHR ''#'' # checksum2 p"
  using padded_checksum [of "sum_list (map unat p) mod 256"]
  by (simp add: makeGdbCommand_def checksum2_def foldl_unat_sum Let_def)

text \<open>The frames the repository's tests expect and send.\<close>

lemma frames_test_vectors:
  "makeGdbCommand (js ''Hc0'') = js ''$Hc0#DB''"
  "makeGdbCommand (js ''c'') = js ''$c#63''"
  "makeGdbCommand (js ''OK'') = js ''$OK#9A''"
  "makeGdbCommand (js ''O'') = js ''$O#4F''"
  "makeGdbCommand (js ''E23'') = js ''$E23#AA''"
  by code_simp+

text \<open>
  Claim C6. For every command string \<open>c\<close>, \<open>makeGdbCommand c\<close> is \<open>$\<close>, then \<open>c\<close>, then
  \<open>#\<close>, then the sum of the character codes of \<open>c\<close> modulo 256 as exactly two upper-case
  hexadecimal digits (a single digit is padded with a leading zero).
\<close>

theorem makeGdbCommand_frame:
  "makeGdbCommand c = js ''$'' @ c @ js ''#'' @ checksum2 c"
proof -
  have "sum_list (map unat c) mod 256 < 256" by simp
  from padded_checksum [OF this] show ?thesis
    by (simp add: makeGdbCommand_def checksum2_def foldl_unat_sum Let_def)
qed

subsection \<open>Path encoding\<close>

text \<open>The path of the repository's test, and the encoding the test expects.\<close>

lemma encodePath_test_vector:
  "encodePath (js ''/private/var/mobile/Applications/042F57CA-9717-4655-8349-532093FFCF44/BlankCordovaApp1.app'')
   = js ''2F707269766174652F7661722F6D6F62696C652F4170706C69636174696F6E732F30343246353743412D393731372D343635352D383334392D3533323039334646434634342F426C616E6B436F72646F7661417070312E617070''"
  by code_simp

text \<open>On a path without line terminators the source agrees with the specification.\<close>

lemma encodePath_hexEncode:
  "\<forall>c \<in> set p. \<not> isLineTerminator c \<Longrightarrow> encodePath p = hexEncode p"
  by (induction p) (simp_all add: encodePath_def hexEncode_def)

text \<open>
  Claim C7. \<open>encodePath\<close> should map every character of its input to the upper-case
  hexadecimal form of its character code. On the one-character path holding a line feed
  (character code 10) the source returns the line feed itself, where the encoding of
  every character gives \<open>A\<close>: the pattern \<open>/./g\<close> does not match line terminators.
\<close>

theorem encodePath_line_terminator:
  "encodePath [0x0A] = [0x0A] \<and> hexEncode [0x0A] = js ''A''"
  by (simp add: encodePath_def hexEncode_def isLineTerminator_def toString16.simps
      toUpperCase_def digitChar_def js_def)

section \<open>Properties of the handshake\<close>

subsection \<open>Strings, deferreds and runs\<close>

lemma stripAcks_replicate:
  "c \<noteq> ch CHR ''+'' \<Longrightarrow> stripAcks (replicate n (ch CHR ''+'') @ c # cs) = c # cs"
  by (induction n) simp_all

lemma stripAcks_frameData:
  "stripAcks (frameData n p) = ch CHR ''$'' # p @ ch CHR ''#'' # checksum2 p"
  by (simp add: frameData_def makeGdbCommand_Cons stripAcks_replicate)

lemma frameData_test_vectors:
  "frameData 1 (js ''OK'') = js ''+$OK#9A''"
  "frameData 1 (js ''O'') = js ''+$O#4F''"
  "frameData 0 (js ''E23'') = js ''$E23#AA''"
  "frameData 0 (js ''T91'') = js ''$T91#BE''"
  by code_simp+

lemma charAt_0 [simp]: "charAt (x # xs) 0 = Some x"
  by (simp add: charAt_def)

lemma charAt_1 [simp]: "charAt (x # y # ys) (Suc 0) = Some y"
  by (simp add: charAt_def)

lemma substring_1_3 [simp]: "substring (x # y # ys) (Suc 0) 3 = y # take (Suc 0) ys"
  by (simp add: substring_def)

lemma reject_settled: "d \<noteq> Pending \<Longrightarrow> reject r d = d"
  by (cases d) (simp_all add: reject_def)

lemma resolve_settled: "d \<noteq> Pending \<Longrightarrow> resolve v d = d"
  by (cases d) (simp_all add: resolve_def)

lemma reject_Pending: "reject r Pending = Rejected r"
  by (simp add: reject_def)

lemma reject_Fulfilled [simp]: "reject r (Fulfilled v) = Fulfilled v"
  by (simp add: reject_def)

lemma resolve_Fulfilled [simp]: "resolve v (Fulfilled w) = Fulfilled w"
  by (simp add: resolve_def)

lemma resolve_eq_Fulfilled:
  "resolve v d = Fulfilled w \<longleftrightarrow> (d = Pending \<and> v = w) \<or> d = Fulfilled w"
  by (cases d) (auto simp: resolve_def)

lemma reject_eq_Fulfilled [simp]: "reject r d = Fulfilled w \<longleftrightarrow> d = Fulfilled w"
  by (cases d) (auto simp: reject_def)

lemma run_Nil [simp]: "run s [] = s"
  by (simp add: run_def)

lemma run_Cons [simp]: "run s (e # es) = run (fire s e) es"
  by (simp add: run_def)

subsection \<open>The data handler on a complete frame\<close>

text \<open>
  On a chunk that is a complete frame after any number of acknowledgement characters,
  the handler acknowledges and then looks at the first character \<open>m\<close> of the payload (and,
  for \<open>OK\<close>, at the character after it).
\<close>

lemma onData_frame:
  "onData (frameData n (m # rest)) s0 =
    (let s = socket_write (js ''+'') s0 in
     if m = ch CHR ''W'' \<or> m = ch CHR ''X'' \<or> m = ch CHR ''T'' then socket_end s
     else if m # take 1 (rest @ ch CHR ''#'' # checksum2 (m # rest)) = js ''OK'' then
       (if initState s = 1 then s\<lparr>deferred1 := resolve TheSocket (deferred1 s)\<rparr>
        else if initState s = 2 then s\<lparr>deferred2 := resolve TheSocket (deferred2 s)\<rparr>
        else s)
     else if m = ch CHR ''O'' then
       (if initState s = 3
        then s\<lparr>deferred3 := resolve TheSocket (deferred3 s), initState := initState s + 1\<rparr>
        else s)
     else if m = ch CHR ''E'' then rejectAll (Str ''UnableToLaunchApp'') s
     else s)"
  by (simp add: onData_def stripAcks_frameData Let_def)

lemma onData_OK:
  "onData (frameData n (ch CHR ''O'' # ch CHR ''K'' # rest)) s0 =
    (let s = socket_write (js ''+'') s0 in
     if initState s = 1 then s\<lparr>deferred1 := resolve TheSocket (deferred1 s)\<rparr>
     else if initState s = 2 then s\<lparr>deferred2 := resolve TheSocket (deferred2 s)\<rparr>
     else s)"
  by (simp add: onData_frame Let_def)

lemma onData_O:
  assumes "take 1 out \<noteq> js ''K''"
  shows "onData (frameData n (ch CHR ''O'' # out)) s0 =
    (let s = socket_write (js ''+'') s0 in
     if initState s = 3
     then s\<lparr>deferred3 := resolve TheSocket (deferred3 s), initState := initState s + 1\<rparr>
     else s)"
  using assms by (cases out) (simp_all add: onData_frame Let_def)

lemma onData_E:
  "onData (frameData n (ch CHR ''E'' # rest)) s0 =
     rejectAll (Str ''UnableToLaunchApp'') (socket_write (js ''+'') s0)"
  by (simp add: onData_frame Let_def)

lemma onData_WXT:
  "m \<in> {ch CHR ''W'', ch CHR ''X'', ch CHR ''T''} \<Longrightarrow>
   onData (frameData n (m # rest)) s0 = socket_end (socket_write (js ''+'') s0)"
  by (auto simp add: onData_frame Let_def)

text \<open>
  The session after the first two steps: the peer has answered the first and the second
  command with an \<open>OK\<close> frame, and both \<open>then\<close> callbacks have run.
\<close>

lemma handshake_run:
    "run (startAppViaDebugger p)
       [Connect, Data (frameData a (js ''OK'')), Then1, Data (frameData b (js ''OK'')), Then2]
     = \<lparr>encodedPath = encodePath p, initState = 3,
        deferred1 = Fulfilled TheSocket, deferred2 = Fulfilled TheSocket, deferred3 = Pending,
        written = [launchCommand (encodePath p), js ''+'', makeGdbCommand (js ''Hc0''), js ''+'',
                   makeGdbCommand (js ''c'')],
        ended = False, connected = True, timer1 = True, timer2 = True, timer3 = True, chain = 2\<rparr>"
  by (simp add: startAppViaDebugger_def onConnect_def onData_OK then1_def then2_def Let_def
      socket_write_def resolve_def)

subsection \<open>The three steps\<close>

text \<open>A hex-encoded payload does not begin with \<open>K\<close>, so the frame is not taken for \<open>OK\<close>.\<close>

lemma hex_payload_not_K: "\<forall>c \<in> set out. isHexDigit c \<Longrightarrow> take 1 out \<noteq> js ''K''"
  by (cases out) (auto simp: isHexDigit_def)

text \<open>
  Claim C1. Let the peer answer the first command (the launch argument) and the second
  (\<open>Hc0\<close>) each with a complete \<open>OK\<close> frame, after any number of \<open>+\<close> characters, and let
  \<open>s\<close> be the session once the third command (\<open>c\<close>) is written. Then the session awaits
  the acknowledgement of \<open>c\<close> and the returned promise is pending; a further \<open>OK\<close> frame
  leaves both as they are; a complete \<open>O\<close> frame (its payload \<open>out\<close>, the hex-encoded
  output, does not begin with \<open>K\<close>) fulfils the returned promise with the socket, which
  has not been ended, and moves the session to \<open>Monitoring\<close>.
\<close>

theorem handshake_resolves:
  assumes "take 1 out \<noteq> js ''K''"
    and "s = run (startAppViaDebugger p)
           [Connect, Data (frameData a (js ''OK'')), Then1, Data (frameData b (js ''OK'')), Then2]"
  shows "AwaitingContinueAck s \<and> returned s = Pending
    \<and> returned (fire s (Data (frameData c (js ''OK'')))) = Pending
    \<and> AwaitingContinueAck (fire s (Data (frameData c (js ''OK''))))
    \<and> returned (fire s (Data (frameData c (ch CHR ''O'' # out)))) = Fulfilled TheSocket
    \<and> Monitoring (fire s (Data (frameData c (ch CHR ''O'' # out))))
    \<and> \<not> ended (fire s (Data (frameData c (ch CHR ''O'' # out))))"
  using assms(1) unfolding assms(2) handshake_run
  by (simp add: onData_OK onData_O returned_def Monitoring_def AwaitingContinueAck_def Let_def
      socket_write_def resolve_def)

theorem handshake_resolves_witness:
  "take 1 [] \<noteq> js ''K''
   \<and> returned (run (startAppViaDebugger (js ''/a''))
        [Connect, Data (frameData 1 (js ''OK'')), Then1, Data (frameData 1 (js ''OK'')), Then2,
         Data (frameData 1 (js ''O''))]) = Fulfilled TheSocket
   \<and> Monitoring (run (startAppViaDebugger (js ''/a''))
        [Connect, Data (frameData 1 (js ''OK'')), Then1, Data (frameData 1 (js ''OK'')), Then2,
         Data (frameData 1 (js ''O''))])"
  using handshake_resolves [of "[]" _ "js ''/a''" 1 1 1, OF _ refl]
  by (simp add: run_def)

text \<open>
  Claim C3. In every state of the session, so while any of the three steps is awaited, a
  complete \<open>E\<close> frame makes the handler call \<open>reject\<close> with \<open>UnableToLaunchApp\<close> (the
  \<open>LaunchFailed\<close> kind) on all three deferreds: each one that is still pending is
  rejected with it, and a settled one keeps its outcome. The handler acknowledges the
  frame and does not end the socket.
\<close>

theorem error_frame_rejects:
  assumes "s' = fire s (Data (frameData n (ch CHR ''E'' # code)))"
  shows "deferred1 s' = reject (Str ''UnableToLaunchApp'') (deferred1 s)
    \<and> deferred2 s' = reject (Str ''UnableToLaunchApp'') (deferred2 s)
    \<and> deferred3 s' = reject (Str ''UnableToLaunchApp'') (deferred3 s)
    \<and> (deferred1 s = Pending \<longrightarrow> deferred1 s' = Rejected (Str ''UnableToLaunchApp''))
    \<and> (deferred2 s = Pending \<longrightarrow> deferred2 s' = Rejected (Str ''UnableToLaunchApp''))
    \<and> (deferred3 s = Pending \<longrightarrow> deferred3 s' = Rejected (Str ''UnableToLaunchApp''))
    \<and> ended s' = ended s
    \<and> written s' = written s @ [js ''+'']
    \<and> initState s' = initState s"
  unfolding assms
  by (simp add: onData_E rejectAll_def socket_write_def reject_Pending)

text \<open>The repository's test: the peer answers \<open>c\<close> with \<open>$E23#AA\<close>.\<close>

theorem error_frame_rejects_witness:
  "deferred3 (run (startAppViaDebugger (js ''/a''))
      [Connect, Data (frameData 1 (js ''OK'')), Then1, Data (frameData 1 (js ''OK'')), Then2]) = Pending
   \<and> deferred3 (fire (run (startAppViaDebugger (js ''/a''))
      [Connect, Data (frameData 1 (js ''OK'')), Then1, Data (frameData 1 (js ''OK'')), Then2])
      (Data (frameData 0 (js ''E23'')))) = Rejected (Str ''UnableToLaunchApp'')
   \<and> returned (fire (run (startAppViaDebugger (js ''/a''))
      [Connect, Data (frameData 1 (js ''OK'')), Then1, Data (frameData 1 (js ''OK'')), Then2])
      (Data (frameData 0 (js ''E23'')))) = Rejected (Str ''UnableToLaunchApp'')
   \<and> \<not> ended (fire (run (startAppViaDebugger (js ''/a''))
      [Connect, Data (frameData 1 (js ''OK'')), Then1, Data (frameData 1 (js ''OK'')), Then2])
      (Data (frameData 0 (js ''E23''))))"
  using error_frame_rejects [OF refl, of
      "run (startAppViaDebugger (js ''/a''))
        [Connect, Data (frameData 1 (js ''OK'')), Then1, Data (frameData 1 (js ''OK'')), Then2]"
      0 "js ''23''"]
  unfolding handshake_run
  by (simp add: returned_def onData_E rejectAll_def socket_write_def reject_def)

text \<open>
  Claim C4. When the timer of a step fires while the deferred of that step is pending,
  that deferred is rejected with \<open>DeviceLaunchTimeout\<close> (the \<open>LaunchTimeout\<close> kind); the
  deferreds of the other steps keep their state, so a step that was resolved stays
  resolved, the socket is not ended and nothing is written to it.
\<close>

theorem timeout_rejects_step:
  "(timer1 s \<and> deferred1 s = Pending \<longrightarrow>
      deferred1 (fire s Timeout1) = Rejected (Str ''DeviceLaunchTimeout'')
      \<and> deferred2 (fire s Timeout1) = deferred2 s \<and> deferred3 (fire s Timeout1) = deferred3 s
      \<and> ended (fire s Timeout1) = ended s \<and> written (fire s Timeout1) = written s)
   \<and> (timer2 s \<and> deferred2 s = Pending \<longrightarrow>
      deferred2 (fire s Timeout2) = Rejected (Str ''DeviceLaunchTimeout'')
      \<and> deferred1 (fire s Timeout2) = deferred1 s \<and> deferred3 (fire s Timeout2) = deferred3 s
      \<and> ended (fire s Timeout2) = ended s \<and> written (fire s Timeout2) = written s)
   \<and> (timer3 s \<and> deferred3 s = Pending \<longrightarrow>
      deferred3 (fire s Timeout3) = Rejected (Str ''DeviceLaunchTimeout'')
      \<and> deferred1 (fire s Timeout3) = deferred1 s \<and> deferred2 (fire s Timeout3) = deferred2 s
      \<and> ended (fire s Timeout3) = ended s \<and> written (fire s Timeout3) = written s)"
  by (simp add: reject_Pending)

text \<open>The third step times out after the first two were acknowledged.\<close>

theorem timeout_rejects_step_witness:
  "timer3 (run (startAppViaDebugger (js ''/a''))
      [Connect, Data (frameData 1 (js ''OK'')), Then1, Data (frameData 1 (js ''OK'')), Then2])
   \<and> deferred3 (run (startAppViaDebugger (js ''/a''))
      [Connect, Data (frameData 1 (js ''OK'')), Then1, Data (frameData 1 (js ''OK'')), Then2]) = Pending
   \<and> deferred3 (fire (run (startAppViaDebugger (js ''/a''))
      [Connect, Data (frameData 1 (js ''OK'')), Then1, Data (frameData 1 (js ''OK'')), Then2])
      Timeout3) = Rejected (Str ''DeviceLaunchTimeout'')
   \<and> deferred1 (fire (run (startAppViaDebugger (js ''/a''))
      [Connect, Data (frameData 1 (js ''OK'')), Then1, Data (frameData 1 (js ''OK'')), Then2])
      Timeout3) = Fulfilled TheSocket
   \<and> deferred2 (fire (run (startAppViaDebugger (js ''/a''))
      [Connect, Data (frameData 1 (js ''OK'')), Then1, Data (frameData 1 (js ''OK'')), Then2])
      Timeout3) = Fulfilled TheSocket
   \<and> \<not> ended (fire (run (startAppViaDebugger (js ''/a''))
      [Connect, Data (frameData 1 (js ''OK'')), Then1, Data (frameData 1 (js ''OK'')), Then2])
      Timeout3)"
  using timeout_rejects_step [of
      "run (startAppViaDebugger (js ''/a''))
        [Connect, Data (frameData 1 (js ''OK'')), Then1, Data (frameData 1 (js ''OK'')), Then2]"]
  unfolding handshake_run
  by simp

text \<open>
  Claim C10. A complete \<open>W\<close>, \<open>X\<close> or \<open>T\<close> frame makes the handler call \<open>socket.end()\<close> in
  every state of the session, whatever \<open>initState\<close> is; it settles no deferred itself.
  When the \<open>end\<close> event of the connection follows, its handler calls \<open>reject\<close> with
  \<open>UnableToLaunchApp\<close> on all three deferreds, so every step that was unresolved when the
  frame arrived is rejected with the \<open>LaunchFailed\<close> kind.
\<close>

theorem exit_frame_ends_connection:
  assumes "m \<in> {ch CHR ''W'', ch CHR ''X'', ch CHR ''T''}"
    and "s' = fire s (Data (frameData n (m # rest)))"
  shows "ended s'
    \<and> deferred1 s' = deferred1 s \<and> deferred2 s' = deferred2 s \<and> deferred3 s' = deferred3 s
    \<and> initState s' = initState s
    \<and> (deferred1 s = Pending \<longrightarrow> deferred1 (fire s' End) = Rejected (Str ''UnableToLaunchApp''))
    \<and> (deferred2 s = Pending \<longrightarrow> deferred2 (fire s' End) = Rejected (Str ''UnableToLaunchApp''))
    \<and> (deferred3 s = Pending \<longrightarrow> deferred3 (fire s' End) = Rejected (Str ''UnableToLaunchApp''))
    \<and> deferred1 (fire s' End) = reject (Str ''UnableToLaunchApp'') (deferred1 s)
    \<and> deferred2 (fire s' End) = reject (Str ''UnableToLaunchApp'') (deferred2 s)
    \<and> deferred3 (fire s' End) = reject (Str ''UnableToLaunchApp'') (deferred3 s)"
  unfolding assms(2) using assms(1)
  by (simp add: onData_WXT onEnd_def rejectAll_def socket_write_def socket_end_def reject_Pending)

text \<open>A \<open>T\<close> frame while the acknowledgement of \<open>c\<close> is awaited.\<close>

theorem exit_frame_ends_connection_witness:
  "ch CHR ''T'' \<in> {ch CHR ''W'', ch CHR ''X'', ch CHR ''T''}
   \<and> deferred3 (run (startAppViaDebugger (js ''/a''))
      [Connect, Data (frameData 1 (js ''OK'')), Then1, Data (frameData 1 (js ''OK'')), Then2]) = Pending
   \<and> ended (fire (run (startAppViaDebugger (js ''/a''))
      [Connect, Data (frameData 1 (js ''OK'')), Then1, Data (frameData 1 (js ''OK'')), Then2])
      (Data (frameData 0 (js ''T91''))))
   \<and> deferred3 (fire (fire (run (startAppViaDebugger (js ''/a''))
      [Connect, Data (frameData 1 (js ''OK'')), Then1, Data (frameData 1 (js ''OK'')), Then2])
      (Data (frameData 0 (js ''T91'')))) End) = Rejected (Str ''UnableToLaunchApp'')"
  using exit_frame_ends_connection [of "ch CHR ''T''" _
      "run (startAppViaDebugger (js ''/a''))
        [Connect, Data (frameData 1 (js ''OK'')), Then1, Data (frameData 1 (js ''OK'')), Then2]"
      0 "js ''91''", OF _ refl]
  unfolding handshake_run
  by simp

subsection \<open>Settled deferreds\<close>

text \<open>No event changes a deferred that is settled, nor the returned promise once it is.\<close>

lemma fire_deferred1_settled: "deferred1 s \<noteq> Pending \<Longrightarrow> deferred1 (fire s e) = deferred1 s"
  by (cases e)
    (simp_all add: onData_def onEnd_def onError_def onConnect_def then1_def then2_def rejectAll_def
      socket_write_def socket_end_def Let_def reject_settled resolve_settled)

lemma fire_deferred2_settled: "deferred2 s \<noteq> Pending \<Longrightarrow> deferred2 (fire s e) = deferred2 s"
  by (cases e)
    (simp_all add: onData_def onEnd_def onError_def onConnect_def then1_def then2_def rejectAll_def
      socket_write_def socket_end_def Let_def reject_settled resolve_settled)

lemma fire_deferred3_settled: "deferred3 s \<noteq> Pending \<Longrightarrow> deferred3 (fire s e) = deferred3 s"
  by (cases e)
    (simp_all add: onData_def onEnd_def onError_def onConnect_def then1_def then2_def rejectAll_def
      socket_write_def socket_end_def Let_def reject_settled resolve_settled)

lemma run_deferred1_settled: "deferred1 s \<noteq> Pending \<Longrightarrow> deferred1 (run s es) = deferred1 s"
  by (induction es arbitrary: s) (simp_all add: fire_deferred1_settled)

lemma run_deferred2_settled: "deferred2 s \<noteq> Pending \<Longrightarrow> deferred2 (run s es) = deferred2 s"
  by (induction es arbitrary: s) (simp_all add: fire_deferred2_settled)

lemma run_deferred3_settled: "deferred3 s \<noteq> Pending \<Longrightarrow> deferred3 (run s es) = deferred3 s"
  by (induction es arbitrary: s) (simp_all add: fire_deferred3_settled)

lemma fire_returned_settled: "returned s \<noteq> Pending \<Longrightarrow> returned (fire s e) = returned s"
  by (cases e)
    (auto simp add: returned_def onData_def onEnd_def onError_def onConnect_def then1_def then2_def rejectAll_def
      socket_write_def socket_end_def Let_def reject_settled resolve_settled split: deferred.splits if_splits)

text \<open>
  Claim C5. Resolving or rejecting a settled deferred is a no-op, and whatever events
  follow (matching replies, error replies, the end of the connection, socket errors,
  timers), the outcome of a settled step is the one its first resolution gave; the same
  holds for the promise the call returned.
\<close>

theorem settled_expectation_stable:
  "(deferred1 s \<noteq> Pending \<longrightarrow> deferred1 (run s es) = deferred1 s)
   \<and> (deferred2 s \<noteq> Pending \<longrightarrow> deferred2 (run s es) = deferred2 s)
   \<and> (deferred3 s \<noteq> Pending \<longrightarrow> deferred3 (run s es) = deferred3 s)
   \<and> (returned s \<noteq> Pending \<longrightarrow> returned (run s es) = returned s)
   \<and> (d \<noteq> Pending \<longrightarrow> resolve v d = d \<and> reject r d = d)"
proof -
  have "returned s \<noteq> Pending \<Longrightarrow> returned (run s es) = returned s"
    by (induction es arbitrary: s) (simp_all add: fire_returned_settled)
  then show ?thesis
    by (simp add: run_deferred1_settled run_deferred2_settled run_deferred3_settled
        resolve_settled reject_settled)
qed

text \<open>
  The timer of the first step fires; the late \<open>OK\<close>, the end of the connection, a socket
  error and a second timeout change nothing.
\<close>

theorem settled_expectation_stable_witness:
  "deferred1 (run (startAppViaDebugger (js ''/a'')) [Connect, Timeout1]) \<noteq> Pending
   \<and> deferred1 (run (run (startAppViaDebugger (js ''/a'')) [Connect, Timeout1])
        [Data (frameData 1 (js ''OK'')), Then1, End, Error ''ECONNRESET'', Timeout1])
      = Rejected (Str ''DeviceLaunchTimeout'')"
proof -
  define S where "S = run (startAppViaDebugger (js ''/a'')) [Connect, Timeout1]"
  define es where "es = [Data (frameData 1 (js ''OK'')), Then1, End, Error ''ECONNRESET'', Timeout1]"
  have h: "deferred1 S = Rejected (Str ''DeviceLaunchTimeout'')"
    unfolding S_def
    by (simp add: startAppViaDebugger_def onConnect_def Let_def socket_write_def reject_def)
  then have ne: "deferred1 S \<noteq> Pending" by simp
  from settled_expectation_stable [of S es, THEN conjunct1, THEN mp, OF ne]
  have "deferred1 (run S es) = Rejected (Str ''DeviceLaunchTimeout'')"
    by (simp only: h)
  with ne show ?thesis unfolding S_def es_def by (rule conjI)
qed

subsection \<open>The order of the commands\<close>

lemma command_not_ack [simp]: "makeGdbCommand p \<noteq> [ch CHR ''+'']"
  by (simp add: makeGdbCommand_Cons)

lemma inv_start: "inv (encodePath p) (startAppViaDebugger p)"
  by (simp add: inv_def startAppViaDebugger_def sent_def commands_def)

lemma inv_chain0: "inv enc s \<Longrightarrow> \<not> connected s \<Longrightarrow> chain s = 0"
  by (cases "chain s") (auto simp: inv_def)

lemma inv_Data: "inv enc s \<Longrightarrow> inv enc (fire s (Data d))"
  by (auto simp: inv_def onData_def Let_def sent_def commands_def socket_write_def socket_end_def
      rejectAll_def resolve_eq_Fulfilled)

lemma inv_rejectAll: "inv enc s \<Longrightarrow> inv enc (rejectAll r s)"
  by (auto simp: inv_def sent_def commands_def rejectAll_def)

lemma launchCommand_not_ack [simp]: "launchCommand enc \<noteq> [ch CHR ''+'']"
  by (simp add: launchCommand_def)

lemma inv_Connect:
  assumes "inv enc s"
  shows "inv enc (fire s Connect)"
proof (cases "connected s")
  case True
  with assms show ?thesis by simp
next
  case False
  with assms have c0: "chain s = 0" by (rule inv_chain0)
  from assms False c0 have i0: "initState s = 0" and w: "commands s = []"
    and d1: "deferred1 s \<noteq> Fulfilled TheSocket" and e: "encodedPath s = enc"
    by (auto simp: inv_def sent_def)
  from False c0 i0 w d1 e show ?thesis
    by (simp add: inv_def onConnect_def Let_def sent_def commands_def socket_write_def handshake_def)
qed

lemma inv_Then1: "inv enc s \<Longrightarrow> inv enc (fire s Then1)"
  by (auto simp: inv_def then1_def Let_def sent_def commands_def socket_write_def handshake_def)

lemma inv_Then2: "inv enc s \<Longrightarrow> inv enc (fire s Then2)"
  by (auto simp: inv_def then2_def Let_def sent_def commands_def socket_write_def handshake_def)

lemma inv_Timeout:
  "inv enc s \<Longrightarrow> inv enc (fire s Timeout1)"
  "inv enc s \<Longrightarrow> inv enc (fire s Timeout2)"
  "inv enc s \<Longrightarrow> inv enc (fire s Timeout3)"
  by (auto simp: inv_def sent_def commands_def)

lemma inv_fire: "inv enc s \<Longrightarrow> inv enc (fire s e)"
proof (cases e)
  case Connect
  assume "inv enc s" with Connect show ?thesis by (simp only: inv_Connect)
next
  case (Data d)
  assume "inv enc s" with Data show ?thesis by (simp only: inv_Data)
next
  case End
  assume "inv enc s" with End show ?thesis by (simp add: onEnd_def inv_rejectAll)
next
  case (Error err)
  assume "inv enc s" with Error show ?thesis by (simp add: onError_def inv_rejectAll)
next
  case Timeout1
  assume "inv enc s" with Timeout1 show ?thesis by (simp only: inv_Timeout)
next
  case Timeout2
  assume "inv enc s" with Timeout2 show ?thesis by (simp only: inv_Timeout)
next
  case Timeout3
  assume "inv enc s" with Timeout3 show ?thesis by (simp only: inv_Timeout)
next
  case Then1
  assume "inv enc s" with Then1 show ?thesis by (simp only: inv_Then1)
next
  case Then2
  assume "inv enc s" with Then2 show ?thesis by (simp only: inv_Then2)
qed

lemma inv_run: "inv enc s \<Longrightarrow> inv enc (run s es)"
  by (induction es arbitrary: s) (simp_all add: inv_fire)

lemma inv_reachable: "inv (encodePath p) (run (startAppViaDebugger p) es)"
  by (rule inv_run [OF inv_start])

lemma written_onData:
  "written (onData d s) = written s \<or> written (onData d s) = written s @ [js ''+'']"
  by (simp add: onData_def Let_def socket_write_def socket_end_def rejectAll_def)

lemma commands_distinct:
  "launchCommand enc \<noteq> makeGdbCommand (js ''Hc0'')"
  "launchCommand enc \<noteq> makeGdbCommand (js ''c'')"
  "makeGdbCommand (js ''Hc0'') \<noteq> makeGdbCommand (js ''c'')"
  by (simp_all add: launchCommand_def makeGdbCommand_Cons)

lemma ack_not_command [simp]: "[ch CHR ''+''] \<noteq> makeGdbCommand p"
  by (simp add: makeGdbCommand_Cons)

lemma write_Hc0_after_step1:
  assumes "written (fire s e) = written s @ [makeGdbCommand (js ''Hc0'')]"
  shows "deferred1 s = Fulfilled TheSocket"
proof (cases e)
  case (Data d)
  with assms written_onData [of d s] show ?thesis by auto
next
  case Connect
  with assms commands_distinct(1) show ?thesis
    by (auto simp: onConnect_def Let_def socket_write_def split: if_splits)
next
  case Then1
  with assms show ?thesis by (auto split: if_splits)
next
  case Then2
  with assms commands_distinct(3) show ?thesis
    by (auto simp: then2_def Let_def socket_write_def split: if_splits)
qed (use assms in \<open>auto simp: onEnd_def onError_def rejectAll_def split: if_splits\<close>)

lemma write_c_after_step2:
  assumes "written (fire s e) = written s @ [makeGdbCommand (js ''c'')]"
  shows "deferred2 s = Fulfilled TheSocket"
proof (cases e)
  case (Data d)
  with assms written_onData [of d s] show ?thesis by auto
next
  case Connect
  with assms commands_distinct(2) show ?thesis
    by (auto simp: onConnect_def Let_def socket_write_def split: if_splits)
next
  case Then1
  with assms commands_distinct(3) show ?thesis
    by (auto simp: then1_def Let_def socket_write_def split: if_splits)
next
  case Then2
  with assms show ?thesis by (auto split: if_splits)
qed (use assms in \<open>auto simp: onEnd_def onError_def rejectAll_def split: if_splits\<close>)

lemma inv_sent_cases: "inv enc s \<Longrightarrow> sent s = 0 \<or> sent s = 1 \<or> sent s = 2 \<or> sent s = 3"
  by (auto simp: inv_def sent_def)

lemma inv_Hc0_written:
  assumes "inv enc s" and "makeGdbCommand (js ''Hc0'') \<in> set (written s)"
  shows "deferred1 s = Fulfilled TheSocket"
proof -
  from assms(2) have "makeGdbCommand (js ''Hc0'') \<in> set (commands s)"
    by (simp add: commands_def)
  with assms(1) have m: "makeGdbCommand (js ''Hc0'') \<in> set (take (sent s) (handshake enc))"
    by (simp add: inv_def)
  from inv_sent_cases [OF assms(1)] m commands_distinct(1) [of enc] have "2 \<le> sent s"
    by (auto simp: handshake_def)
  then have "1 \<le> chain s" by (simp add: sent_def split: if_splits)
  with assms(1) show ?thesis by (simp add: inv_def)
qed

lemma inv_c_written:
  assumes "inv enc s" and "makeGdbCommand (js ''c'') \<in> set (written s)"
  shows "deferred1 s = Fulfilled TheSocket \<and> deferred2 s = Fulfilled TheSocket"
proof -
  from assms(2) have "makeGdbCommand (js ''c'') \<in> set (commands s)"
    by (simp add: commands_def)
  with assms(1) have m: "makeGdbCommand (js ''c'') \<in> set (take (sent s) (handshake enc))"
    by (simp add: inv_def)
  from inv_sent_cases [OF assms(1)] m commands_distinct(2) [of enc] commands_distinct(3)
  have "sent s = 3"
    by (auto simp: handshake_def numeral_2_eq_2)
  moreover from assms(1) have "chain s \<le> 2" by (simp add: inv_def)
  ultimately have "chain s = 2" by (simp add: sent_def split: if_splits)
  with assms(1) show ?thesis by (simp add: inv_def)
qed

text \<open>
  Claim C2. In every state \<open>s\<close> a run of events reaches from the start: the commands
  written so far are an initial part of the three commands in their order (launch
  argument, \<open>Hc0\<close>, \<open>c\<close>); when \<open>Hc0\<close> has been written the first step is fulfilled, and when
  \<open>c\<close> has been written the first two are; an event that writes \<open>Hc0\<close> (or \<open>c\<close>) finds the
  first (or second) step fulfilled already; and every step has at most one unresolved
  expectation, as each has exactly one deferred.
\<close>

theorem handshake_serialized:
  assumes "s = run (startAppViaDebugger p) es"
  shows "prefix (commands s) (handshake (encodePath p))
    \<and> (makeGdbCommand (js ''Hc0'') \<in> set (written s) \<longrightarrow> deferred1 s = Fulfilled TheSocket)
    \<and> (makeGdbCommand (js ''c'') \<in> set (written s) \<longrightarrow>
         deferred1 s = Fulfilled TheSocket \<and> deferred2 s = Fulfilled TheSocket)
    \<and> (written (fire s e) = written s @ [makeGdbCommand (js ''Hc0'')] \<longrightarrow>
         deferred1 s = Fulfilled TheSocket)
    \<and> (written (fire s e) = written s @ [makeGdbCommand (js ''c'')] \<longrightarrow>
         deferred2 s = Fulfilled TheSocket)
    \<and> length (filter (\<lambda>d. d = Pending) (expectations s n)) \<le> 1"
proof -
  have i: "inv (encodePath p) s" unfolding assms by (rule inv_reachable)
  then have "commands s = take (sent s) (handshake (encodePath p))" by (simp add: inv_def)
  then have "prefix (commands s) (handshake (encodePath p))" by (simp add: take_is_prefix)
  moreover have "length (filter (\<lambda>d. d = Pending) (expectations s n)) \<le> 1"
    by (simp add: expectations_def)
  ultimately show ?thesis
    using inv_Hc0_written [OF i] inv_c_written [OF i] write_Hc0_after_step1 [of s e]
      write_c_after_step2 [of s e]
    by blast
qed

theorem handshake_serialized_witness:
  "makeGdbCommand (js ''c'') \<in> set (written (run (startAppViaDebugger (js ''/a''))
       [Connect, Data (frameData 1 (js ''OK'')), Then1, Data (frameData 1 (js ''OK'')), Then2]))
   \<and> deferred1 (run (startAppViaDebugger (js ''/a''))
       [Connect, Data (frameData 1 (js ''OK'')), Then1, Data (frameData 1 (js ''OK'')), Then2])
      = Fulfilled TheSocket
   \<and> deferred2 (run (startAppViaDebugger (js ''/a''))
       [Connect, Data (frameData 1 (js ''OK'')), Then1, Data (frameData 1 (js ''OK'')), Then2])
      = Fulfilled TheSocket
   \<and> commands (run (startAppViaDebugger (js ''/a''))
       [Connect, Data (frameData 1 (js ''OK'')), Then1, Data (frameData 1 (js ''OK'')), Then2])
      = handshake (encodePath (js ''/a''))"
  using handshake_serialized [OF refl, of "js ''/a''"
      "[Connect, Data (frameData 1 (js ''OK'')), Then1, Data (frameData 1 (js ''OK'')), Then2]"
      Then1 1]
  unfolding handshake_run
  by (simp add: commands_def handshake_def)

section \<open>Properties of mounting and of the proxy start\<close>

text \<open>\<open>indexOf\<close> finds the pattern exactly when the string contains it.\<close>

lemma indexOfFrom_nonneg: "indexOfFrom s pat i = - 1 \<or> int i \<le> indexOfFrom s pat i"
  by (induction s arbitrary: i) (auto, fastforce)

lemma indexOfFrom_sublist: "indexOfFrom s pat i \<noteq> - 1 \<longleftrightarrow> sublist pat s"
  by (induction s arbitrary: i) (auto simp: sublist_Cons_right)

lemma indexOf_sublist: "indexOf s pat \<noteq> - 1 \<longleftrightarrow> sublist pat s"
  by (simp add: indexOf_def indexOfFrom_sublist)

lemma stdout_chunks:
  "stdout (foldl (\<lambda>m c. onStdoutData c m) m chunks) = stdout m @ concat chunks"
  by (induction chunks arbitrary: m) (simp_all add: onStdoutData_def)

lemma deferred_chunks:
  "mount_deferred (foldl (\<lambda>m c. onStdoutData c m) m chunks) = mount_deferred m"
  by (induction chunks arbitrary: m) (simp_all add: onStdoutData_def)

text \<open>
  Claim C8. When \<open>ideviceimagemounter\<close> closes with a code other than 0 after writing
  \<open>chunks\<close> to its standard output, \<open>mountDeveloperImage\<close> resolves if the output contains
  \<open>Error:\<close>; otherwise it rejects with \<open>NoDeviceAttached\<close> if the output contains
  \<open>No device found, is it plugged in?\<close>, and with \<open>ErrorMountingDiskImage\<close> if it does not.
\<close>

theorem mount_close_nonzero:
  assumes "code \<noteq> Some 0"
    and "m = foldl (\<lambda>m c. onStdoutData c m) mountDeveloperImage chunks"
  shows "mount_deferred (onClose code m) =
    (if sublist (js ''Error:'') (concat chunks) then Fulfilled ()
     else if sublist (js ''No device found, is it plugged in?'') (concat chunks)
     then Rejected (ErrorObj ''NoDeviceAttached'')
     else Rejected (ErrorObj ''ErrorMountingDiskImage''))"
proof -
  have s: "stdout m = concat chunks" and d: "mount_deferred m = Pending"
    unfolding assms(2) by (simp_all add: stdout_chunks deferred_chunks mountDeveloperImage_def)
  show ?thesis
    using assms(1)
    by (simp add: onClose_def Let_def indexOf_sublist s d resolve_def reject_def del: js_Cons)
qed

theorem mount_close_nonzero_witness:
  "Some 1 \<noteq> Some (0::int)
   \<and> mount_deferred (onClose (Some 1)
        (foldl (\<lambda>m c. onStdoutData c m) mountDeveloperImage [js ''Err'', js ''or: x'']))
      = Fulfilled ()
   \<and> mount_deferred (onClose (Some 1)
        (foldl (\<lambda>m c. onStdoutData c m) mountDeveloperImage [js ''No device found, is it plugged in?'']))
      = Rejected (ErrorObj ''NoDeviceAttached'')
   \<and> mount_deferred (onClose None
        (foldl (\<lambda>m c. onStdoutData c m) mountDeveloperImage []))
      = Rejected (ErrorObj ''ErrorMountingDiskImage'')"
proof -
  have a: "sublist (js ''Error:'') (concat [js ''Err'', js ''or: x''])"
    by (simp add: sublist_Cons_right)
  have b: "\<not> sublist (js ''Error:'') (concat [js ''No device found, is it plugged in?''])"
    by (simp add: sublist_Cons_right)
  have c: "\<not> sublist (js ''Error:'') (concat [])"
    "\<not> sublist (js ''No device found, is it plugged in?'') (concat [])"
    by simp_all
  from a b c
    mount_close_nonzero [of "Some 1" _ "[js ''Err'', js ''or: x'']", OF _ refl]
    mount_close_nonzero [of "Some 1" _ "[js ''No device found, is it plugged in?'']", OF _ refl]
    mount_close_nonzero [of None _ "[]", OF _ refl]
  show ?thesis by (simp del: js_Cons)
qed

text \<open>
  Claim C9, as the source has it. After \<open>startDebugProxy\<close> has spawned the proxy \<open>h\<close>,
  its promise is pending. If the process reports an error before the delay of 200
  milliseconds has passed, the promise is rejected with that very error, passed through
  unchanged whatever it is, and stays so when the delay passes. If the delay passes first,
  the promise resolves with the stored process, which is \<open>h\<close>, and a later error changes
  nothing.
\<close>

theorem proxy_spawn_race:
  assumes "g = startDebugProxy h g0"
  shows "proxy_deferred g = Pending
    \<and> proxy_deferred (onProxyError err g) = Rejected (ErrorObj err)
    \<and> proxy_deferred (onDelay (onProxyError err g)) = Rejected (ErrorObj err)
    \<and> nativeDebuggerProxyInstance g = Some h
    \<and> proxy_deferred (onDelay g) = Fulfilled (nativeDebuggerProxyInstance g)
    \<and> proxy_deferred (onProxyError err (onDelay g)) = Fulfilled (Some h)"
  unfolding assms
  by (simp add: startDebugProxy_def spawnProxy_def killPrevious_def onProxyError_def onDelay_def
      set_nativeDebuggerProxyInstance_def nativeDebuggerProxyInstance_def resolve_def reject_def
      split: option.splits)

text \<open>A second call: the proxy 7 of the first call is sent \<open>SIGHUP\<close>, the proxy 8 is spawned.\<close>

theorem proxy_spawn_race_witness:
  "proxy_deferred (onProxyError ''spawn ENOENT''
      (startDebugProxy 8 \<lparr>tacoRemoteLib = Some (Some 7), proxy_deferred = Pending,
         errorListener = False, delayPending = False, killed = []\<rparr>))
     = Rejected (ErrorObj ''spawn ENOENT'')
   \<and> proxy_deferred (onDelay
      (startDebugProxy 8 \<lparr>tacoRemoteLib = Some (Some 7), proxy_deferred = Pending,
         errorListener = False, delayPending = False, killed = []\<rparr>))
     = Fulfilled (Some 8)
   \<and> killed (startDebugProxy 8 \<lparr>tacoRemoteLib = Some (Some 7), proxy_deferred = Pending,
         errorListener = False, delayPending = False, killed = []\<rparr>) = [7]"
  using proxy_spawn_race [OF refl, of 8 "\<lparr>tacoRemoteLib = Some (Some 7), proxy_deferred = Pending,
         errorListener = False, delayPending = False, killed = []\<rparr>" "''spawn ENOENT''"]
  by (simp add: startDebugProxy_def spawnProxy_def killPrevious_def
      set_nativeDebuggerProxyInstance_def nativeDebuggerProxyInstance_def)

text \<open>
  The claim as the specification words it has the promise fail with a kind named
  \<open>ProxySpawnFailed\<close>. The source has no such constant: when the spawn of the proxy 8
  fails with \<open>spawn ENOENT\<close>, the promise is rejected with that error, which is neither
  an \<open>Error\<close> object nor a string named \<open>ProxySpawnFailed\<close>.
\<close>

theorem proxy_spawn_failed_kind_counterexample:
  "proxy_deferred (onProxyError ''spawn ENOENT''
      (startDebugProxy 8 \<lparr>tacoRemoteLib = Some (Some 7), proxy_deferred = Pending,
         errorListener = False, delayPending = False, killed = []\<rparr>))
     = Rejected (ErrorObj ''spawn ENOENT'')
   \<and> proxy_deferred (onProxyError ''spawn ENOENT''
      (startDebugProxy 8 \<lparr>tacoRemoteLib = Some (Some 7), proxy_deferred = Pending,
         errorListener = False, delayPending = False, killed = []\<rparr>))
     \<noteq> Rejected (ErrorObj ''ProxySpawnFailed'')
   \<and> proxy_deferred (onProxyError ''spawn ENOENT''
      (startDebugProxy 8 \<lparr>tacoRemoteLib = Some (Some 7), proxy_deferred = Pending,
         errorListener = False, delayPending = False, killed = []\<rparr>))
     \<noteq> Rejected (Str ''ProxySpawnFailed'')"
  by (simp add: startDebugProxy_def spawnProxy_def killPrevious_def onProxyError_def
      set_nativeDebuggerProxyInstance_def nativeDebuggerProxyInstance_def reject_def)

end
